theory Spec2Isabelle
  imports Main "HOL-Library.Sublist"
begin

section \<open>Timestamps\<close>

text \<open>
  A pandas timestamp is either the missing value \<open>NaT\<close> or an instant, stored as the number
  of nanoseconds since the epoch in UTC, together with its time zone (\<open>None\<close> for a naive
  timestamp). \<open>NaT.tzinfo\<close> is \<open>None\<close>.
\<close>

datatype timestamp = NaT | Timestamp (tzinfo: "string option") (ns: int)
  where "tzinfo NaT = None"

text \<open>
  Comparison of two timezone-aware timestamps compares their instants; every comparison
  with \<open>NaT\<close> is false. The library compares nothing else here: the queries assert
  awareness first and the table's columns carry a zone.
\<close>

fun ts_lt :: "timestamp \<Rightarrow> timestamp \<Rightarrow> bool" where
  "ts_lt (Timestamp _ a) (Timestamp _ b) = (a < b)"
| "ts_lt _ _ = False"

fun ts_le :: "timestamp \<Rightarrow> timestamp \<Rightarrow> bool" where
  "ts_le (Timestamp _ a) (Timestamp _ b) = (a \<le> b)"
| "ts_le _ _ = False"

definition ts_gt :: "timestamp \<Rightarrow> timestamp \<Rightarrow> bool" where
  "ts_gt a b = ts_lt b a"

definition ts_ge :: "timestamp \<Rightarrow> timestamp \<Rightarrow> bool" where
  "ts_ge a b = ts_le b a"

text \<open>
  The builtins \<open>max(a, b)\<close> and \<open>min(a, b)\<close>: the second argument replaces the first only
  when it is strictly greater (smaller).
\<close>

definition py_max :: "timestamp \<Rightarrow> timestamp \<Rightarrow> timestamp" where
  "py_max a b = (if ts_gt b a then b else a)"

definition py_min :: "timestamp \<Rightarrow> timestamp \<Rightarrow> timestamp" where
  "py_min a b = (if ts_lt b a then b else a)"

section \<open>Errors\<close>

text \<open>
  The exceptions of the program. \<open>OutOfBounds\<close> stands for the errors that pandas raises
  when a duration or an instant leaves the range of a 64-bit count of nanoseconds
  (\<open>OutOfBoundsTimedelta\<close>, \<open>OutOfBoundsDatetime\<close>, \<open>OverflowError\<close>), \<open>LocalizeError\<close> for
  those of \<open>tz_localize\<close> on a wall-clock time that the zone skips or repeats.
\<close>

datatype error = AssertionError | ValueError | KeyError | LocalizeError | OutOfBounds

text \<open>Raising: the first error ends the computation.\<close>

definition then_do :: "error + 'a \<Rightarrow> ('a \<Rightarrow> error + 'b) \<Rightarrow> error + 'b" where
  "then_do r f = (case r of Inl e \<Rightarrow> Inl e | Inr x \<Rightarrow> f x)"

text \<open>An operation on a column: element after element, the first failure raises.\<close>

fun traverse :: "('a \<Rightarrow> error + 'b) \<Rightarrow> 'a list \<Rightarrow> error + 'b list" where
  "traverse f [] = Inr []"
| "traverse f (x # xs) =
     then_do (f x) (\<lambda>y. then_do (traverse f xs) (\<lambda>ys. Inr (y # ys)))"

text \<open>\<open>min(xs)\<close> and \<open>max(xs)\<close> on a list; both raise \<open>ValueError\<close> on the empty list.\<close>

definition min_list :: "timestamp list \<Rightarrow> error + timestamp" where
  "min_list xs = (case xs of [] \<Rightarrow> Inl ValueError | x # rest \<Rightarrow> Inr (foldl py_min x rest))"

definition max_list :: "timestamp list \<Rightarrow> error + timestamp" where
  "max_list xs = (case xs of [] \<Rightarrow> Inl ValueError | x # rest \<Rightarrow> Inr (foldl py_max x rest))"

section \<open>Durations and the 64-bit range\<close>

text \<open>
  Durations and instants are counts of nanoseconds held in 64 bits, the least value
  being kept for \<open>NaT\<close>. \<open>pd.Timedelta(minutes=m)\<close> raises when the count is out of this
  range, and so does the addition of a duration to a timestamp or to a column of
  timestamps when the sum is; \<open>NaT\<close> plus a duration is \<open>NaT\<close>.
\<close>

definition in_int64 :: "int \<Rightarrow> bool" where
  "in_int64 v = (- 9223372036854775807 \<le> v \<and> v \<le> 9223372036854775807)"

definition Timedelta_minutes :: "int \<Rightarrow> error + int" where
  "Timedelta_minutes m =
     (if in_int64 (m * 60000000000) then Inr (m * 60000000000) else Inl OutOfBounds)"

fun ts_add :: "timestamp \<Rightarrow> int \<Rightarrow> error + timestamp" where
  "ts_add NaT d = Inr NaT"
| "ts_add (Timestamp z a) d =
     (if in_int64 (a + d) then Inr (Timestamp z (a + d)) else Inl OutOfBounds)"

text \<open>
  The sum as a value, without the range: what \<open>ts_add\<close> gives when it does not raise. It
  serves to state results only.
\<close>

fun ts_plus :: "timestamp \<Rightarrow> int \<Rightarrow> timestamp" where
  "ts_plus NaT d = NaT"
| "ts_plus (Timestamp z a) d = Timestamp z (a + d)"

section \<open>The table of openings\<close>

text \<open>
  One row of \<open>openings_df\<close>. The two time columns have the dtype of a timezone-aware
  column in zone CET: each cell is an instant or missing (\<open>None\<close>), and reading a cell
  gives a timestamp in that zone, or \<open>NaT\<close>.
\<close>

record opening_row =
  start_opening :: "int option"
  end_opening :: "int option"
  hive_nb :: int
  comment :: "string option"

definition cell :: "int option \<Rightarrow> timestamp" where
  "cell v = (case v of None \<Rightarrow> NaT | Some a \<Rightarrow> Timestamp (Some ''CET'') a)"

section \<open>get_invalid_times\<close>

text \<open>The dictionary with the keys \<open>start\<close> and \<open>end\<close> that the loop appends.\<close>

record dict_invalid =
  start_exclusion :: timestamp
  end_exclusion :: timestamp

text \<open>
  The column expression \<open>filtered_openings['end_opening'] + pd.Timedelta(minutes=recovery_time)\<close>:
  the duration is built, then added to every cell of the column. The mask uses the
  expression three times, with the same outcome each time; it is evaluated once here.
\<close>

definition end_plus_recovery :: "int \<Rightarrow> opening_row list \<Rightarrow> error + timestamp list" where
  "end_plus_recovery recovery_time rows =
     then_do (Timedelta_minutes recovery_time) (\<lambda>td.
       traverse (\<lambda>row. ts_add (cell (end_opening row)) td) rows)"

text \<open>
  The boolean mask of the second filter on one row, given the row's value of that
  column expression: three conjunctions joined by \<open>|\<close>, with the comparison operators of
  the source.
\<close>

definition row_mask :: "timestamp \<Rightarrow> timestamp \<Rightarrow> opening_row \<Rightarrow> timestamp \<Rightarrow> bool" where
  "row_mask start_ts end_ts row end_recovered =
     (ts_lt (cell (start_opening row)) end_ts \<and> ts_ge (cell (start_opening row)) start_ts
      \<or> ts_gt end_recovered start_ts \<and> ts_le end_recovered end_ts
      \<or> ts_le (cell (start_opening row)) start_ts \<and> ts_ge end_recovered end_ts)"

text \<open>The body of the loop over the filtered rows; it builds the duration and adds again.\<close>

definition exclusion ::
  "timestamp \<Rightarrow> timestamp \<Rightarrow> int \<Rightarrow> opening_row \<Rightarrow> error + dict_invalid" where
  "exclusion start_ts end_ts recovery_time row =
     then_do (Timedelta_minutes recovery_time) (\<lambda>td.
     then_do (ts_add (cell (end_opening row)) td) (\<lambda>end_recovered.
       Inr \<lparr>start_exclusion = py_max (cell (start_opening row)) start_ts,
            end_exclusion = py_min end_recovered end_ts\<rparr>))"

fun exclusion_loop ::
  "timestamp \<Rightarrow> timestamp \<Rightarrow> int \<Rightarrow> opening_row list \<Rightarrow> dict_invalid list
     \<Rightarrow> error + dict_invalid list"
where
  "exclusion_loop start_ts end_ts recovery_time [] invalid_times = Inr invalid_times"
| "exclusion_loop start_ts end_ts recovery_time (row # rows) invalid_times =
     then_do (exclusion start_ts end_ts recovery_time row) (\<lambda>dict_invalid.
       exclusion_loop start_ts end_ts recovery_time rows (invalid_times @ [dict_invalid]))"

definition get_invalid_times ::
  "opening_row list \<Rightarrow> timestamp \<Rightarrow> timestamp \<Rightarrow> int \<Rightarrow> int \<Rightarrow> error + dict_invalid list"
where
  "get_invalid_times openings_df start_ts end_ts hive recovery_time =
     (if tzinfo start_ts = None then Inl AssertionError
      else if tzinfo end_ts = None then Inl AssertionError
      else
        let filtered_openings = filter (\<lambda>row. hive_nb row = hive) openings_df in
        then_do (end_plus_recovery recovery_time filtered_openings) (\<lambda>end_recovered.
          let filtered_openings =
                map fst (filter (\<lambda>(row, e). row_mask start_ts end_ts row e)
                           (zip filtered_openings end_recovered))
          in exclusion_loop start_ts end_ts recovery_time filtered_openings []))"

section \<open>filter_timestamps and valid_ts\<close>

text \<open>The inner loop with its \<open>break\<close>: the closed test against each interval in turn.\<close>

fun is_valid :: "dict_invalid list \<Rightarrow> timestamp \<Rightarrow> bool" where
  "is_valid [] ts = True"
| "is_valid (invalid # rest) ts =
     (if ts_le (start_exclusion invalid) ts \<and> ts_le ts (end_exclusion invalid) then False
      else is_valid rest ts)"

fun valid_loop :: "dict_invalid list \<Rightarrow> timestamp list \<Rightarrow> timestamp list \<Rightarrow> timestamp list" where
  "valid_loop invalid_times [] valid_timestamps = valid_timestamps"
| "valid_loop invalid_times (ts # rest) valid_timestamps =
     valid_loop invalid_times rest
       (if is_valid invalid_times ts then valid_timestamps @ [ts] else valid_timestamps)"

text \<open>
  \<open>sorted\<close> is stable and compares instants, as \<open>sort_key ns\<close> does. It runs after the
  assertions, so on timezone-aware timestamps only.
\<close>

definition filter_timestamps ::
  "opening_row list \<Rightarrow> timestamp list \<Rightarrow> int \<Rightarrow> int \<Rightarrow> error + timestamp list"
where
  "filter_timestamps openings_df timestamps hive recovery_time =
     (if list_ex (\<lambda>ts. tzinfo ts = None) timestamps then Inl AssertionError
      else
        let timestamps = sort_key ns timestamps in
        case min_list timestamps of
          Inl e \<Rightarrow> Inl e
        | Inr start_ts \<Rightarrow>
            (case max_list timestamps of
               Inl e \<Rightarrow> Inl e
             | Inr end_ts \<Rightarrow>
                 (case get_invalid_times openings_df start_ts end_ts hive recovery_time of
                    Inl e \<Rightarrow> Inl e
                  | Inr invalid_times \<Rightarrow> Inr (valid_loop invalid_times timestamps []))))"

definition valid_ts :: "opening_row list \<Rightarrow> timestamp \<Rightarrow> int \<Rightarrow> int \<Rightarrow> error + bool" where
  "valid_ts openings_df timestamp hive recovery_time =
     (case filter_timestamps openings_df [timestamp] hive recovery_time of
        Inl e \<Rightarrow> Inl e
      | Inr valid \<Rightarrow> Inr (length valid > 0))"

section \<open>Reading the log: strings\<close>

text \<open>
  Characters are code points below 256. \<open>isspace\<close> is the whitespace that \<open>str.strip\<close>
  removes and that \<open>\s\<close> matches there.
\<close>

definition isspace :: "char \<Rightarrow> bool" where
  "isspace c = (of_char c \<in> {9, 10, 11, 12, 13, 28, 29, 30, 31, 32, 133, 160 :: nat})"

definition strip :: "string \<Rightarrow> string" where
  "strip s = rev (dropWhile isspace (rev (dropWhile isspace s)))"

definition startswith :: "string \<Rightarrow> char \<Rightarrow> bool" where
  "startswith s c = (case s of [] \<Rightarrow> False | x # _ \<Rightarrow> x = c)"

text \<open>\<open>s.split(c, n)\<close> with an explicit separator: at most \<open>n\<close> cuts, empty pieces kept.\<close>

fun split_max :: "char \<Rightarrow> nat \<Rightarrow> string \<Rightarrow> string list" where
  "split_max c n [] = [[]]"
| "split_max c 0 s = [s]"
| "split_max c (Suc n) (x # xs) =
     (if x = c then [] # split_max c n xs
      else (case split_max c (Suc n) xs of [] \<Rightarrow> [[x]] | p # ps \<Rightarrow> (x # p) # ps))"

text \<open>\<open>s.split(c)\<close>: every occurrence cuts.\<close>

fun split_all :: "char \<Rightarrow> string \<Rightarrow> string list" where
  "split_all c [] = [[]]"
| "split_all c (x # xs) =
     (if x = c then [] # split_all c xs
      else (case split_all c xs of [] \<Rightarrow> [[x]] | p # ps \<Rightarrow> (x # p) # ps))"

text \<open>\<open>.str[i]\<close> on a column of lists: the missing value when the list is too short.\<close>

definition str_get :: "nat \<Rightarrow> string list \<Rightarrow> string option" where
  "str_get i ps = (if i < length ps then Some (ps ! i) else None)"

definition is_digit :: "char \<Rightarrow> bool" where
  "is_digit c = (48 \<le> (of_char c :: nat) \<and> (of_char c :: nat) \<le> 57)"

definition digit :: "char \<Rightarrow> nat" where
  "digit c = of_char c - 48"

definition to_nat :: "string \<Rightarrow> nat" where
  "to_nat ds = foldl (\<lambda>n c. 10 * n + digit c) 0 ds"

section \<open>Reading the log: the lines\<close>

text \<open>One dictionary of \<open>openings_data\<close>; the key \<open>comment\<close> is present on 4-field lines only.\<close>

record entry =
  date :: string
  time :: string
  hives :: string
  entry_comment :: "string option"

text \<open>The body of the loop over the lines: the dictionary it appends, if any.\<close>

definition parse_line :: "string \<Rightarrow> entry option" where
  "parse_line opening =
     (if strip opening \<noteq> [] \<and> \<not> startswith opening CHR ''#'' then
        (case split_max CHR '' '' 3 (strip opening) of
           [d, t, h] \<Rightarrow> Some \<lparr>date = strip d, time = strip t, hives = strip h, entry_comment = None\<rparr>
         | [d, t, h, c] \<Rightarrow>
             Some \<lparr>date = strip d, time = strip t, hives = strip h, entry_comment = Some (strip c)\<rparr>
         | _ \<Rightarrow> None)
      else None)"

fun read_loop :: "string list \<Rightarrow> entry list \<Rightarrow> entry list" where
  "read_loop [] openings_data = openings_data"
| "read_loop (opening # openings) openings_data =
     read_loop openings
       (case parse_line opening of None \<Rightarrow> openings_data | Some e \<Rightarrow> openings_data @ [e])"

section \<open>Reading the log: dates and times\<close>

text \<open>
  \<open>pd.to_datetime\<close> with the format \<open>%d/%m/%y %H:%M\<close>. Each directive is the regular
  expression of \<open>strptime\<close>: day, month, hour and minute take one or two digits in their
  range (the day also a space and one digit), the year exactly two digits, the blank of
  the format one or more whitespace characters, and the whole string must be consumed.
  The result is the wall-clock time in minutes since 1970-01-01 00:00.
\<close>

definition field :: "nat \<Rightarrow> nat \<Rightarrow> string \<Rightarrow> nat option" where
  "field lo hi ds =
     (if (length ds = 1 \<or> length ds = 2) \<and> lo \<le> to_nat ds \<and> to_nat ds \<le> hi
      then Some (to_nat ds) else None)"

definition expect :: "char \<Rightarrow> string \<Rightarrow> string option" where
  "expect c s = (case s of [] \<Rightarrow> None | x # xs \<Rightarrow> if x = c then Some xs else None)"

definition day_field :: "string \<Rightarrow> (nat \<times> string) option" where
  "day_field s =
     (case s of
        [] \<Rightarrow> None
      | c # cs \<Rightarrow>
          if c = CHR '' '' then
            (if length (takeWhile is_digit cs) = 1 \<and> 1 \<le> to_nat (takeWhile is_digit cs)
             then Some (to_nat (takeWhile is_digit cs), dropWhile is_digit cs) else None)
          else map_option (\<lambda>d. (d, dropWhile is_digit s)) (field 1 31 (takeWhile is_digit s)))"

definition strptime :: "string \<Rightarrow> (nat \<times> nat \<times> nat \<times> nat \<times> nat) option" where
  "strptime s =
     Option.bind (day_field s) (\<lambda>(d, s1).
     Option.bind (expect CHR ''/'' s1) (\<lambda>s2.
     Option.bind (field 1 12 (takeWhile is_digit s2)) (\<lambda>m.
     Option.bind (expect CHR ''/'' (dropWhile is_digit s2)) (\<lambda>s3.
       if length (takeWhile is_digit s3) \<noteq> 2 then None
       else if takeWhile isspace (dropWhile is_digit s3) = [] then None
       else
         let y = to_nat (takeWhile is_digit s3);
             s4 = dropWhile isspace (dropWhile is_digit s3)
         in
         Option.bind (field 0 23 (takeWhile is_digit s4)) (\<lambda>H.
         Option.bind (expect CHR '':'' (dropWhile is_digit s4)) (\<lambda>s5.
         Option.bind (field 0 59 (takeWhile is_digit s5)) (\<lambda>M.
           if dropWhile is_digit s5 = [] then Some (d, m, y, H, M) else None)))))))"

definition is_leap :: "nat \<Rightarrow> bool" where
  "is_leap y = (y mod 4 = 0 \<and> (y mod 100 \<noteq> 0 \<or> y mod 400 = 0))"

definition days_in_month :: "nat \<Rightarrow> nat \<Rightarrow> nat" where
  "days_in_month y m =
     (if m = 2 then (if is_leap y then 29 else 28)
      else if m = 4 \<or> m = 6 \<or> m = 9 \<or> m = 11 then 30 else 31)"

text \<open>The number of days from 1970-01-01 to a date of the proleptic Gregorian calendar.\<close>

definition days_from_civil :: "int \<Rightarrow> int \<Rightarrow> int \<Rightarrow> int" where
  "days_from_civil y m d =
     (let y' = (if m \<le> 2 then y - 1 else y);
          era = y' div 400;
          yoe = y' - era * 400;
          doy = (153 * (if m > 2 then m - 3 else m + 9) + 2) div 5 + d - 1;
          doe = yoe * 365 + yoe div 4 - yoe div 100 + doy
      in era * 146097 + doe - 719468)"

text \<open>
  A missing string gives \<open>NaT\<close>; a string that does not parse, or a day that its month
  does not have, raises. Two-digit years up to 68 are in the 2000s, the others in the 1900s.
\<close>

definition to_datetime :: "string option \<Rightarrow> error + int option" where
  "to_datetime v =
     (case v of
        None \<Rightarrow> Inr None
      | Some s \<Rightarrow>
          (case strptime s of
             None \<Rightarrow> Inl ValueError
           | Some (d, m, y, H, M) \<Rightarrow>
               let year = (if y \<le> 68 then 2000 + y else 1900 + y) in
               if d \<le> days_in_month year m
               then Inr (Some (days_from_civil (int year) (int m) (int d) * 1440
                               + int H * 60 + int M))
               else Inl ValueError))"

text \<open>
  \<open>tz_localize('CET')\<close> reads the wall-clock time as a time of zone CET. The zone's
  offset from UTC comes from the time zone database, which is outside the repository:
  \<open>utcoffset\<close> gives it in minutes for a wall-clock minute, and \<open>None\<close> for a wall-clock
  time that the zone skips or repeats, where the library raises. The result is the
  instant in nanoseconds; \<open>NaT\<close> stays \<open>NaT\<close>.
\<close>

definition tz_localize :: "(int \<Rightarrow> int option) \<Rightarrow> int option \<Rightarrow> error + int option" where
  "tz_localize utcoffset v =
     (case v of
        None \<Rightarrow> Inr None
      | Some w \<Rightarrow>
          (case utcoffset w of
             None \<Rightarrow> Inl LocalizeError
           | Some off \<Rightarrow> Inr (Some ((w - off) * 60000000000))))"

section \<open>Reading the log: hives\<close>

text \<open>
  \<open>str.extract(r'h(\d+)')\<close>: the digits after the first \<open>h\<close> that a digit follows, or the
  missing value.
\<close>

fun extract_h :: "string \<Rightarrow> string option" where
  "extract_h [] = None"
| "extract_h (c # cs) =
     (if c = CHR ''h'' \<and> takeWhile is_digit cs \<noteq> [] then Some (takeWhile is_digit cs)
      else extract_h cs)"

text \<open>
  \<open>explode\<close> on the lists of digit characters: one row per character, and one row with
  the missing value for an empty list. \<open>astype(int)\<close> then raises on a missing value.
\<close>

definition explode_row :: "int option \<times> int option \<times> string option \<times> string \<Rightarrow>
    (int option \<times> int option \<times> string option \<times> char option) list" where
  "explode_row r =
     (case r of (s, e, c, ds) \<Rightarrow>
        if ds = [] then [(s, e, c, None)] else map (\<lambda>ch. (s, e, c, Some ch)) ds)"

definition astype_int ::
  "int option \<times> int option \<times> string option \<times> char option \<Rightarrow> error + opening_row" where
  "astype_int r =
     (case r of (s, e, c, h) \<Rightarrow>
        (case h of
           None \<Rightarrow> Inl ValueError
         | Some ch \<Rightarrow>
             Inr \<lparr>start_opening = s, end_opening = e, hive_nb = int (digit ch), comment = c\<rparr>))"

section \<open>build_openings_df\<close>

text \<open>
  The function takes the lines of the file as \<open>readlines\<close> returns them. An empty
  \<open>openings_data\<close> gives a frame without columns, and selecting \<open>date\<close> raises \<open>KeyError\<close>.
\<close>

definition start_text :: "entry \<Rightarrow> string option" where
  "start_text e = map_option (\<lambda>p. date e @ '' '' @ p) (str_get 0 (split_all CHR ''-'' (time e)))"

definition end_text :: "entry \<Rightarrow> string option" where
  "end_text e = map_option (\<lambda>p. date e @ '' '' @ p) (str_get 1 (split_all CHR ''-'' (time e)))"

definition hive_chars :: "entry \<Rightarrow> string" where
  "hive_chars e = (case extract_h (hives e) of None \<Rightarrow> [] | Some ds \<Rightarrow> ds)"

definition build_openings_df :: "(int \<Rightarrow> int option) \<Rightarrow> string list \<Rightarrow> error + opening_row list"
where
  "build_openings_df utcoffset openings =
     (let openings_data = read_loop openings [] in
      if openings_data = [] then Inl KeyError
      else
        then_do (traverse (\<lambda>e. to_datetime (start_text e)) openings_data) (\<lambda>start_naive.
        then_do (traverse (\<lambda>e. to_datetime (end_text e)) openings_data) (\<lambda>end_naive.
        then_do (traverse (tz_localize utcoffset) start_naive) (\<lambda>start_col.
        then_do (traverse (tz_localize utcoffset) end_naive) (\<lambda>end_col.
          traverse astype_int
            (concat (map explode_row
               (zip start_col (zip end_col
                  (zip (map entry_comment openings_data) (map hive_chars openings_data)))))))))))"

text \<open>
  The frame operations of \<open>build_openings_df\<close> on a list of dictionaries that is not empty,
  and the rows that one dictionary alone gives when every step succeeds on it. The
  lemmas below relate the two: the frame is built exactly when every dictionary gives
  its rows, and the table is their concatenation.
\<close>

definition frame :: "(int \<Rightarrow> int option) \<Rightarrow> entry list \<Rightarrow> error + opening_row list" where
  "frame utcoffset openings_data =
        then_do (traverse (\<lambda>e. to_datetime (start_text e)) openings_data) (\<lambda>start_naive.
        then_do (traverse (\<lambda>e. to_datetime (end_text e)) openings_data) (\<lambda>end_naive.
        then_do (traverse (tz_localize utcoffset) start_naive) (\<lambda>start_col.
        then_do (traverse (tz_localize utcoffset) end_naive) (\<lambda>end_col.
          traverse astype_int
            (concat (map explode_row
               (zip start_col (zip end_col
                  (zip (map entry_comment openings_data) (map hive_chars openings_data))))))))))"

definition entry_rows :: "(int \<Rightarrow> int option) \<Rightarrow> entry \<Rightarrow> error + opening_row list" where
  "entry_rows utcoffset e =
     then_do (to_datetime (start_text e)) (\<lambda>start_naive.
     then_do (to_datetime (end_text e)) (\<lambda>end_naive.
     then_do (tz_localize utcoffset start_naive) (\<lambda>s.
     then_do (tz_localize utcoffset end_naive) (\<lambda>en.
       traverse astype_int (explode_row (s, en, entry_comment e, hive_chars e))))))"

section \<open>The overlap test as the specification words it\<close>

text \<open>
  The three conditions of the specification's interval filter, the second one strict on
  both sides. It is compared below with \<open>row_mask\<close>, which is the test of the source.
\<close>

definition overlap_spec :: "timestamp \<Rightarrow> timestamp \<Rightarrow> int \<Rightarrow> opening_row \<Rightarrow> bool" where
  "overlap_spec start_ts end_ts recovery_minutes row =
     (ts_le start_ts (cell (start_opening row)) \<and> ts_lt (cell (start_opening row)) end_ts
      \<or> ts_lt start_ts (ts_plus (cell (end_opening row)) (recovery_minutes * 60000000000))
        \<and> ts_lt (ts_plus (cell (end_opening row)) (recovery_minutes * 60000000000)) end_ts
      \<or> ts_le (cell (start_opening row)) start_ts
        \<and> ts_le end_ts (ts_plus (cell (end_opening row)) (recovery_minutes * 60000000000)))"

section \<open>The results as values\<close>

text \<open>
  The notions in which the results of \<open>get_invalid_times\<close> are stated: the end of an
  opening plus the recovery time as a value, the condition under which the program
  computes it for a row without leaving the 64-bit range, and the clipped interval of a
  row. The lemmas below show that the program computes exactly these when it returns.
\<close>

definition end_recovered :: "int \<Rightarrow> opening_row \<Rightarrow> timestamp" where
  "end_recovered recovery_time row =
     ts_plus (cell (end_opening row)) (recovery_time * 60000000000)"

definition in_range :: "int \<Rightarrow> opening_row \<Rightarrow> bool" where
  "in_range recovery_time row =
     (case end_opening row of
        None \<Rightarrow> True
      | Some b \<Rightarrow> in_int64 (b + recovery_time * 60000000000))"

definition clipped :: "timestamp \<Rightarrow> timestamp \<Rightarrow> int \<Rightarrow> opening_row \<Rightarrow> dict_invalid" where
  "clipped start_ts end_ts recovery_time row =
     \<lparr>start_exclusion = py_max (cell (start_opening row)) start_ts,
      end_exclusion = py_min (end_recovered recovery_time row) end_ts\<rparr>"

section \<open>The fields of a line as the specification words them\<close>

text \<open>
  The whitespace-delimited fields of a line: the maximal runs of characters that are not
  whitespace. It is compared below with the split on single spaces of the source.
\<close>

fun whitespace_fields :: "string \<Rightarrow> string list" where
  "whitespace_fields [] = []"
| "whitespace_fields (c # cs) =
     (if isspace c then whitespace_fields cs
      else (case cs of
              [] \<Rightarrow> [[c]]
            | d # _ \<Rightarrow>
                if isspace d then [c] # whitespace_fields cs
                else (case whitespace_fields cs of
                        [] \<Rightarrow> [[c]]
                      | w # ws \<Rightarrow> (c # w) # ws)))"

section \<open>Raising and columns\<close>

lemma then_do_Inr_iff:
  "then_do r f = Inr y \<longleftrightarrow> (\<exists>x. r = Inr x \<and> f x = Inr y)"
  by (cases r) (simp_all add: then_do_def)

lemma traverse_Cons_Inr_iff:
  "traverse f (x # xs) = Inr zs \<longleftrightarrow>
     (\<exists>y ys. f x = Inr y \<and> traverse f xs = Inr ys \<and> zs = y # ys)"
  by (auto simp: then_do_Inr_iff)

lemma traverse_append_Inr_iff:
  "traverse f (xs @ ys) = Inr zs \<longleftrightarrow>
     (\<exists>a b. traverse f xs = Inr a \<and> traverse f ys = Inr b \<and> zs = a @ b)"
proof (induction xs arbitrary: zs)
  case Nil
  then show ?case by simp
next
  case (Cons x xs)
  show ?case
    unfolding append_Cons traverse_Cons_Inr_iff Cons.IH by auto
qed

lemma traverse_Inr_iff:
  "traverse f xs = Inr ys \<longleftrightarrow> list_all2 (\<lambda>x y. f x = Inr y) xs ys"
proof (induction xs arbitrary: ys)
  case Nil
  then show ?case by auto
next
  case (Cons x xs)
  show ?case
    unfolding traverse_Cons_Inr_iff Cons.IH by (auto simp: list_all2_Cons1)
qed

lemma traverse_map_Inr:
  "(\<And>x. x \<in> set xs \<Longrightarrow> f (g x) = Inr (h x)) \<Longrightarrow> traverse f (map g xs) = Inr (map h xs)"
  by (induction xs) (simp_all add: then_do_def)

lemma traverse_Inl:
  "traverse f xs = Inl e \<Longrightarrow> \<exists>x \<in> set xs. f x = Inl e"
  by (induction xs) (auto simp: then_do_def split: sum.splits)

section \<open>The 64-bit range\<close>

lemma Timedelta_minutes_cases:
  "Timedelta_minutes r =
     (if in_int64 (r * 60000000000) then Inr (r * 60000000000) else Inl OutOfBounds)"
  by (simp add: Timedelta_minutes_def)

lemma ts_add_cell:
  "ts_add (cell (end_opening row)) (r * 60000000000) =
     (if in_range r row then Inr (end_recovered r row) else Inl OutOfBounds)"
  by (cases "end_opening row") (simp_all add: cell_def in_range_def end_recovered_def)

lemma end_plus_recovery_cases:
  "end_plus_recovery r rows =
     (if in_int64 (r * 60000000000) \<and> (\<forall>row \<in> set rows. in_range r row)
      then Inr (map (end_recovered r) rows) else Inl OutOfBounds)"
proof (cases "in_int64 (r * 60000000000)")
  case False
  then show ?thesis by (simp add: end_plus_recovery_def Timedelta_minutes_def then_do_def)
next
  case True
  have "traverse (\<lambda>row. ts_add (cell (end_opening row)) (r * 60000000000)) rows =
          (if \<forall>row \<in> set rows. in_range r row
           then Inr (map (end_recovered r) rows) else Inl OutOfBounds)"
    by (induction rows) (auto simp: ts_add_cell then_do_def)
  with True show ?thesis
    by (simp add: end_plus_recovery_def Timedelta_minutes_def then_do_def)
qed

lemma exclusion_cases:
  "exclusion s e r row =
     (if in_int64 (r * 60000000000) \<and> in_range r row
      then Inr (clipped s e r row) else Inl OutOfBounds)"
  by (simp add: exclusion_def Timedelta_minutes_def then_do_def ts_add_cell clipped_def)

section \<open>The loops as list functions\<close>

lemma exclusion_loop_map:
  assumes "in_int64 (r * 60000000000)" and "\<forall>row \<in> set rows. in_range r row"
  shows "exclusion_loop s e r rows acc = Inr (acc @ map (clipped s e r) rows)"
  using assms
  by (induction rows arbitrary: acc) (simp_all add: exclusion_cases then_do_def)

lemma filter_zip_map:
  "map fst (filter (case_prod P) (zip rows (map f rows))) =
     filter (\<lambda>row. P row (f row)) rows"
  by (induction rows) simp_all

lemma is_valid_iff:
  "is_valid ivs ts \<longleftrightarrow>
     \<not> list_ex (\<lambda>iv. ts_le (start_exclusion iv) ts \<and> ts_le ts (end_exclusion iv)) ivs"
  by (induction ivs) simp_all

lemma valid_loop_filter:
  "valid_loop ivs tss acc = acc @ filter (is_valid ivs) tss"
  by (induction tss arbitrary: acc) simp_all

lemma get_invalid_times_cases:
  "get_invalid_times tbl start_ts end_ts h r =
     (if tzinfo start_ts = None \<or> tzinfo end_ts = None then Inl AssertionError
      else if in_int64 (r * 60000000000) \<and> (\<forall>row \<in> set tbl. hive_nb row = h \<longrightarrow> in_range r row)
      then Inr (map (clipped start_ts end_ts r)
                  (filter (\<lambda>row. hive_nb row = h
                             \<and> row_mask start_ts end_ts row (end_recovered r row)) tbl))
      else Inl OutOfBounds)"
proof (cases "tzinfo start_ts = None \<or> tzinfo end_ts = None")
  case True
  then show ?thesis by (auto simp: get_invalid_times_def)
next
  case aware: False
  let ?rows = "filter (\<lambda>row. hive_nb row = h) tbl"
  let ?kept = "filter (\<lambda>row. hive_nb row = h
                         \<and> row_mask start_ts end_ts row (end_recovered r row)) tbl"
  show ?thesis
  proof (cases "in_int64 (r * 60000000000) \<and> (\<forall>row \<in> set tbl. hive_nb row = h \<longrightarrow> in_range r row)")
    case False
    then have "end_plus_recovery r ?rows = Inl OutOfBounds"
      by (auto simp: end_plus_recovery_cases)
    with aware False show ?thesis
      by (simp add: get_invalid_times_def Let_def then_do_def)
  next
    case True
    then have col: "end_plus_recovery r ?rows = Inr (map (end_recovered r) ?rows)"
      by (auto simp: end_plus_recovery_cases)
    have kept: "map fst (filter (case_prod (row_mask start_ts end_ts))
                  (zip ?rows (map (end_recovered r) ?rows))) = ?kept"
      unfolding filter_zip_map by (simp add: conj_commute)
    have "\<forall>row \<in> set ?kept. in_range r row" using True by auto
    then have loop: "exclusion_loop start_ts end_ts r ?kept [] =
                       Inr (map (clipped start_ts end_ts r) ?kept)"
      using True exclusion_loop_map[of r ?kept start_ts end_ts "[]"] by simp
    have "get_invalid_times tbl start_ts end_ts h r =
            exclusion_loop start_ts end_ts r
              (map fst (filter (case_prod (row_mask start_ts end_ts))
                  (zip ?rows (map (end_recovered r) ?rows)))) []"
    proof -
      obtain zs ze where "tzinfo start_ts = Some zs" and "tzinfo end_ts = Some ze"
        using aware by auto
      then show ?thesis
        by (simp add: get_invalid_times_def Let_def col then_do_def)
    qed
    with True aware show ?thesis
      unfolding kept loop by simp
  qed
qed

lemma get_invalid_times_Inr_iff:
  "get_invalid_times tbl start_ts end_ts h r = Inr ivs \<longleftrightarrow>
     tzinfo start_ts \<noteq> None \<and> tzinfo end_ts \<noteq> None \<and> in_int64 (r * 60000000000)
     \<and> (\<forall>row \<in> set tbl. hive_nb row = h \<longrightarrow> in_range r row)
     \<and> ivs = map (clipped start_ts end_ts r)
               (filter (\<lambda>row. hive_nb row = h
                          \<and> row_mask start_ts end_ts row (end_recovered r row)) tbl)"
  unfolding get_invalid_times_cases by auto

lemma get_invalid_times_hive_only:
  "get_invalid_times tbl s e h r = get_invalid_times (filter (\<lambda>row. hive_nb row = h) tbl) s e h r"
  by (simp add: get_invalid_times_def Let_def)

lemma filter_timestamps_hive_only:
  "filter_timestamps tbl tss h r = filter_timestamps (filter (\<lambda>row. hive_nb row = h) tbl) tss h r"
  unfolding filter_timestamps_def Let_def
  by (subst get_invalid_times_hive_only) simp

lemma mask_ordered:
  assumes "ts_le s e" and "0 \<le> r" and "ts_ge (cell (end_opening row)) (cell (start_opening row))"
    and "row_mask s e row (end_recovered r row)"
  shows "ts_le (start_exclusion (clipped s e r row)) (end_exclusion (clipped s e r row))"
  using assms
  by (cases s; cases e; cases "start_opening row"; cases "end_opening row")
     (auto simp: row_mask_def clipped_def end_recovered_def cell_def ts_ge_def ts_gt_def
        py_max_def py_min_def)

section \<open>The least and the greatest timestamp\<close>

lemma aware_cases: "tzinfo t \<noteq> None \<Longrightarrow> \<exists>z a. t = Timestamp (Some z) a"
  by (cases t) auto

lemma foldl_py_min_mem: "foldl py_min x xs \<in> set (x # xs)"
  by (induction xs arbitrary: x) (auto simp: py_min_def)

lemma foldl_py_max_mem: "foldl py_max x xs \<in> set (x # xs)"
  by (induction xs arbitrary: x) (auto simp: py_max_def)

lemma foldl_py_min_ns:
  "\<forall>t \<in> set (x # xs). tzinfo t \<noteq> None \<Longrightarrow> ns (foldl py_min x xs) = Min (ns ` set (x # xs))"
proof (induction xs arbitrary: x)
  case Nil
  then show ?case by simp
next
  case (Cons y ys)
  obtain zx a where x: "x = Timestamp (Some zx) a" using Cons.prems aware_cases by fastforce
  obtain zy b where y: "y = Timestamp (Some zy) b" using Cons.prems aware_cases by fastforce
  have aw: "\<forall>t \<in> set (py_min x y # ys). tzinfo t \<noteq> None"
    using Cons.prems by (auto simp: py_min_def)
  have "ns (foldl py_min x (y # ys)) = Min (ns ` set (py_min x y # ys))"
    using Cons.IH[OF aw] by simp
  also have "\<dots> = Min (insert (min a b) (ns ` set ys))"
    by (simp add: x y py_min_def min_def)
  also have "\<dots> = Min (ns ` set (x # y # ys))"
    by (cases "ys = []") (simp_all add: x y Min_insert min.assoc)
  finally show ?case .
qed

lemma foldl_py_max_ns:
  "\<forall>t \<in> set (x # xs). tzinfo t \<noteq> None \<Longrightarrow> ns (foldl py_max x xs) = Max (ns ` set (x # xs))"
proof (induction xs arbitrary: x)
  case Nil
  then show ?case by simp
next
  case (Cons y ys)
  obtain zx a where x: "x = Timestamp (Some zx) a" using Cons.prems aware_cases by fastforce
  obtain zy b where y: "y = Timestamp (Some zy) b" using Cons.prems aware_cases by fastforce
  have aw: "\<forall>t \<in> set (py_max x y # ys). tzinfo t \<noteq> None"
    using Cons.prems by (auto simp: py_max_def)
  have "ns (foldl py_max x (y # ys)) = Max (ns ` set (py_max x y # ys))"
    using Cons.IH[OF aw] by simp
  also have "\<dots> = Max (insert (max a b) (ns ` set ys))"
    by (simp add: x y py_max_def ts_gt_def max_def)
  also have "\<dots> = Max (ns ` set (x # y # ys))"
    by (cases "ys = []") (simp_all add: x y Max_insert max.assoc)
  finally show ?case .
qed

lemma filter_timestamps_Inr:
  assumes "filter_timestamps tbl tss h r = Inr valid"
  shows "\<exists>s e ivs. (\<forall>t \<in> set tss. tzinfo t \<noteq> None)
           \<and> min_list (sort_key ns tss) = Inr s \<and> max_list (sort_key ns tss) = Inr e
           \<and> get_invalid_times tbl s e h r = Inr ivs
           \<and> valid = filter (is_valid ivs) (sort_key ns tss)"
  using assms
  by (auto simp: filter_timestamps_def Let_def valid_loop_filter list_ex_iff
      split: if_splits sum.splits)

lemma filter_timestamps_returns:
  assumes "tss \<noteq> []" and "\<forall>t \<in> set tss. tzinfo t \<noteq> None"
    and "in_int64 (r * 60000000000)" and "\<forall>row \<in> set tbl. hive_nb row = h \<longrightarrow> in_range r row"
  shows "\<exists>s e. min_list (sort_key ns tss) = Inr s \<and> max_list (sort_key ns tss) = Inr e
           \<and> tzinfo s \<noteq> None \<and> tzinfo e \<noteq> None
           \<and> filter_timestamps tbl tss h r =
               Inr (filter (is_valid (map (clipped s e r)
                      (filter (\<lambda>row. hive_nb row = h
                                 \<and> row_mask s e row (end_recovered r row)) tbl)))
                    (sort_key ns tss))"
proof -
  obtain x xs where srt: "sort_key ns tss = x # xs"
    using assms(1) by (cases "sort_key ns tss") (auto dest: arg_cong[where f=length])
  have aw: "\<forall>t \<in> set (x # xs). tzinfo t \<noteq> None"
    using assms(2) srt by (metis set_sort)
  let ?s = "foldl py_min x xs" and ?e = "foldl py_max x xs"
  have s: "tzinfo ?s \<noteq> None" using foldl_py_min_mem[of x xs] aw by blast
  have e: "tzinfo ?e \<noteq> None" using foldl_py_max_mem[of x xs] aw by blast
  have g: "get_invalid_times tbl ?s ?e h r =
             Inr (map (clipped ?s ?e r)
                    (filter (\<lambda>row. hive_nb row = h
                               \<and> row_mask ?s ?e row (end_recovered r row)) tbl))"
    using s e assms(3,4) unfolding get_invalid_times_cases by simp
  have "\<not> list_ex (\<lambda>ts. tzinfo ts = None) tss" using assms(2) by (simp add: list_ex_iff)
  then show ?thesis
    using s e srt
    by (simp add: filter_timestamps_def min_list_def max_list_def g valid_loop_filter)
qed

section \<open>When the queries fail\<close>

text \<open>
  The assertion fails exactly on a naive timestamp: in \<open>get_invalid_times\<close>, in
  \<open>valid_ts\<close>, and in \<open>filter_timestamps\<close> on a list that is not empty. The other failure of
  \<open>get_invalid_times\<close> is a recovery time, or an end of an opening of the hive plus the
  recovery time, out of the 64-bit range.
\<close>

lemma get_invalid_times_assertion_iff:
  "get_invalid_times tbl s e h r = Inl AssertionError \<longleftrightarrow> tzinfo s = None \<or> tzinfo e = None"
  unfolding get_invalid_times_cases by auto

lemma get_invalid_times_out_of_bounds_iff:
  "get_invalid_times tbl s e h r = Inl OutOfBounds \<longleftrightarrow>
     tzinfo s \<noteq> None \<and> tzinfo e \<noteq> None
     \<and> \<not> (in_int64 (r * 60000000000) \<and> (\<forall>row \<in> set tbl. hive_nb row = h \<longrightarrow> in_range r row))"
  unfolding get_invalid_times_cases by auto

lemma filter_timestamps_assertion_iff:
  assumes "tss \<noteq> []"
  shows "filter_timestamps tbl tss h r = Inl AssertionError \<longleftrightarrow> (\<exists>t \<in> set tss. tzinfo t = None)"
proof
  assume l: "filter_timestamps tbl tss h r = Inl AssertionError"
  show "\<exists>t \<in> set tss. tzinfo t = None"
  proof (rule ccontr)
    assume "\<not> (\<exists>t \<in> set tss. tzinfo t = None)"
    then have aw: "\<forall>t \<in> set tss. tzinfo t \<noteq> None" by simp
    obtain x xs where srt: "sort_key ns tss = x # xs"
      using assms by (cases "sort_key ns tss") (auto dest: arg_cong[where f=length])
    have aw': "\<forall>t \<in> set (x # xs). tzinfo t \<noteq> None"
      using aw srt by (metis set_sort)
    have s: "tzinfo (foldl py_min x xs) \<noteq> None" using foldl_py_min_mem[of x xs] aw' by blast
    have e: "tzinfo (foldl py_max x xs) \<noteq> None" using foldl_py_max_mem[of x xs] aw' by blast
    have "get_invalid_times tbl (foldl py_min x xs) (foldl py_max x xs) h r \<noteq> Inl AssertionError"
      using s e by (simp add: get_invalid_times_assertion_iff)
    moreover have "\<not> list_ex (\<lambda>ts. tzinfo ts = None) tss" using aw by (simp add: list_ex_iff)
    ultimately show False
      using l srt
      by (auto simp: filter_timestamps_def min_list_def max_list_def split: sum.splits)
  qed
next
  assume "\<exists>t \<in> set tss. tzinfo t = None"
  then show "filter_timestamps tbl tss h r = Inl AssertionError"
    by (auto simp: filter_timestamps_def list_ex_iff)
qed

lemma valid_ts_assertion_iff:
  "valid_ts tbl t h r = Inl AssertionError \<longleftrightarrow> tzinfo t = None"
  using filter_timestamps_assertion_iff[of "[t]" tbl h r]
  by (auto simp: valid_ts_def split: sum.splits)

section \<open>The frame, row by row\<close>

lemma read_loop_map_filter:
  "read_loop ls acc = acc @ List.map_filter parse_line ls"
  by (induction ls arbitrary: acc) (auto simp: map_filter_simps split: option.splits)

lemma frame_Cons_Inr_iff:
  "frame off (e # ents) = Inr tbl \<longleftrightarrow>
     (\<exists>r t. entry_rows off e = Inr r \<and> frame off ents = Inr t \<and> tbl = r @ t)"
  by (auto simp: frame_def entry_rows_def then_do_Inr_iff traverse_Cons_Inr_iff
      traverse_append_Inr_iff simp del: traverse.simps(2))

lemma frame_Inr_iff:
  "frame off ents = Inr tbl \<longleftrightarrow>
     (\<exists>rs. list_all2 (\<lambda>e r. entry_rows off e = Inr r) ents rs \<and> tbl = concat rs)"
proof (induction ents arbitrary: tbl)
  case Nil
  then show ?case by (auto simp: frame_def then_do_def)
next
  case (Cons e ents)
  show ?case
    unfolding frame_Cons_Inr_iff Cons.IH list_all2_Cons1 by force
qed

lemma build_openings_df_frame:
  "build_openings_df off ls =
     (if read_loop ls [] = [] then Inl KeyError else frame off (read_loop ls []))"
  by (simp add: build_openings_df_def frame_def Let_def)

lemma parse_line_None_iff:
  "parse_line l = None \<longleftrightarrow>
     strip l = [] \<or> startswith l CHR ''#''
     \<or> (length (split_max CHR '' '' 3 (strip l)) \<noteq> 3
        \<and> length (split_max CHR '' '' 3 (strip l)) \<noteq> 4)"
  by (auto simp: parse_line_def split: list.splits)

lemma map_filter_append:
  "List.map_filter f (xs @ ys) = List.map_filter f xs @ List.map_filter f ys"
  by (simp add: List.map_filter_def)

lemma read_loop_skip:
  "parse_line l = None \<Longrightarrow> read_loop (before @ l # after) [] = read_loop (before @ after) []"
  by (simp add: read_loop_map_filter map_filter_simps map_filter_append)





lemma split_all_not_Nil: "split_all c s \<noteq> []"
  by (induction s) (auto split: list.splits)

lemma start_text_Some: "\<exists>str. start_text en = Some str"
  using split_all_not_Nil[of "CHR ''-''" "time en"]
  by (simp add: start_text_def str_get_def)

lemma to_datetime_Some:
  "to_datetime (Some str) = Inr v \<Longrightarrow> \<exists>w. v = Some w"
  by (auto simp: to_datetime_def Let_def split: option.splits if_splits)

lemma explode_rows_fields:
  assumes "traverse astype_int (explode_row (s, e, c, ds)) = Inr r" and "row \<in> set r"
  shows "start_opening row = s \<and> end_opening row = e \<and> comment row = c"
proof (cases "ds = []")
  case True
  then show ?thesis using assms(1) by (simp add: explode_row_def astype_int_def then_do_def)
next
  case False
  have "traverse astype_int (explode_row (s, e, c, ds)) =
          Inr (map (\<lambda>ch. \<lparr>start_opening = s, end_opening = e, hive_nb = int (digit ch),
                           comment = c\<rparr>) ds)"
    using False by (simp add: explode_row_def traverse_map_Inr astype_int_def)
  then show ?thesis using assms by auto
qed

lemma build_row_origin:
  assumes "build_openings_df off ls = Inr tbl" and "row \<in> set tbl"
  shows "\<exists>en \<in> set (read_loop ls []). \<exists>sn enn.
           to_datetime (start_text en) = Inr sn \<and> to_datetime (end_text en) = Inr enn
           \<and> tz_localize off sn = Inr (start_opening row)
           \<and> tz_localize off enn = Inr (end_opening row)
           \<and> comment row = entry_comment en"
proof -
  have "frame off (read_loop ls []) = Inr tbl"
    using assms(1) unfolding build_openings_df_frame by (simp split: if_splits)
  then obtain rs where
    all: "list_all2 (\<lambda>e r. entry_rows off e = Inr r) (read_loop ls []) rs"
    and tbl: "tbl = concat rs"
    unfolding frame_Inr_iff by blast
  from assms(2) tbl obtain r where r: "r \<in> set rs" and row: "row \<in> set r" by auto
  from r obtain i where i: "i < length rs" and ri: "rs ! i = r"
    by (auto simp: in_set_conv_nth)
  have len: "length (read_loop ls []) = length rs"
    using all by (rule list_all2_lengthD)
  have er: "entry_rows off (read_loop ls [] ! i) = Inr r"
    using list_all2_nthD2[OF all i] ri by simp
  define en where "en = read_loop ls [] ! i"
  have en: "en \<in> set (read_loop ls [])"
    using i len by (simp add: en_def)
  note er = er[folded en_def]
  obtain sn enn s e where sn: "to_datetime (start_text en) = Inr sn"
    and enn: "to_datetime (end_text en) = Inr enn"
    and s: "tz_localize off sn = Inr s" and e: "tz_localize off enn = Inr e"
    and t: "traverse astype_int (explode_row (s, e, entry_comment en, hive_chars en)) = Inr r"
    using er unfolding entry_rows_def then_do_Inr_iff by blast
  from explode_rows_fields[OF t row] sn enn s e en show ?thesis by blast
qed

section \<open>Two examples, evaluated\<close>

text \<open>The line of the specification's example, step by step.\<close>

lemma inspection_line:
  "parse_line ''01/02/24 10:00-11:00 h12 inspection'' =
     Some \<lparr>date = ''01/02/24'', time = ''10:00-11:00'', hives = ''h12'',
           entry_comment = Some ''inspection''\<rparr>"
  by code_simp

lemma inspection_read:
  "read_loop [''01/02/24 10:00-11:00 h12 inspection''] [] =
     [\<lparr>date = ''01/02/24'', time = ''10:00-11:00'', hives = ''h12'',
       entry_comment = Some ''inspection''\<rparr>]"
  by (simp add: inspection_line)

lemma inspection_start:
  "to_datetime (start_text \<lparr>date = ''01/02/24'', time = ''10:00-11:00'', hives = ''h12'',
           entry_comment = Some ''inspection''\<rparr>)
     = Inr (Some (days_from_civil 2024 2 1 * 1440 + 10 * 60 + 0))"
  by code_simp

lemma inspection_end:
  "to_datetime (end_text \<lparr>date = ''01/02/24'', time = ''10:00-11:00'', hives = ''h12'',
           entry_comment = Some ''inspection''\<rparr>)
     = Inr (Some (days_from_civil 2024 2 1 * 1440 + 11 * 60 + 0))"
  by code_simp



text \<open>
  One opening of hive 1 from 10:00 to 11:00, and the timestamps 12:00, 09:30 and 12:30
  in this order: the interval is 10:00 to 12:00, and 12:00, at its end, is not kept.
\<close>

lemma example_sorted:
  "sort_key ns [Timestamp (Some ''CET'') 1706785200000000000,
                Timestamp (Some ''UTC'') 1706776200000000000,
                Timestamp (Some ''CET'') 1706787000000000000]
   = [Timestamp (Some ''UTC'') 1706776200000000000,
      Timestamp (Some ''CET'') 1706785200000000000,
      Timestamp (Some ''CET'') 1706787000000000000]"
  by simp

lemma example_intervals:
  "get_invalid_times
       [\<lparr>start_opening = Some 1706778000000000000, end_opening = Some 1706781600000000000,
         hive_nb = 1, comment = None\<rparr>]
       (Timestamp (Some ''UTC'') 1706776200000000000)
       (Timestamp (Some ''CET'') 1706787000000000000) 1 60
     = Inr [\<lparr>start_exclusion = Timestamp (Some ''CET'') 1706778000000000000,
             end_exclusion = Timestamp (Some ''CET'') 1706785200000000000\<rparr>]"
  by (simp add: get_invalid_times_cases in_int64_def in_range_def row_mask_def clipped_def
      end_recovered_def cell_def ts_ge_def ts_gt_def py_max_def py_min_def)

lemma example_filtered:
  "filter_timestamps
     [\<lparr>start_opening = Some 1706778000000000000, end_opening = Some 1706781600000000000,
       hive_nb = 1, comment = None\<rparr>]
     [Timestamp (Some ''CET'') 1706785200000000000,
      Timestamp (Some ''UTC'') 1706776200000000000,
      Timestamp (Some ''CET'') 1706787000000000000] 1 60
   = Inr [Timestamp (Some ''UTC'') 1706776200000000000,
          Timestamp (Some ''CET'') 1706787000000000000]"
  unfolding filter_timestamps_def Let_def example_sorted
  by (simp add: min_list_def max_list_def py_max_def py_min_def ts_gt_def example_intervals)

section \<open>C1: which rows contribute an interval\<close>

text \<open>
  C1, as the specification states it, fails. The row below is an opening of hive 1 from
  10:00 to 10:00 on 2024-02-01 (CET); the query window is 09:00 to 10:00 with no recovery
  time. The row meets none of the three conditions as the specification words them (its
  exclusion end equals \<open>end_ts\<close>, and the second condition is strict there), and
  \<open>get_invalid_times\<close> returns an interval for it.
\<close>

theorem get_invalid_times_strict_end_counterexample:
  "hive_nb \<lparr>start_opening = Some 1706778000000000000, end_opening = Some 1706778000000000000,
            hive_nb = 1, comment = None\<rparr> = 1
   \<and> \<not> overlap_spec (Timestamp (Some ''CET'') 1706774400000000000)
          (Timestamp (Some ''CET'') 1706778000000000000) 0
          \<lparr>start_opening = Some 1706778000000000000, end_opening = Some 1706778000000000000,
           hive_nb = 1, comment = None\<rparr>
   \<and> get_invalid_times
        [\<lparr>start_opening = Some 1706778000000000000, end_opening = Some 1706778000000000000,
          hive_nb = 1, comment = None\<rparr>]
        (Timestamp (Some ''CET'') 1706774400000000000)
        (Timestamp (Some ''CET'') 1706778000000000000) 1 0
      = Inr [\<lparr>start_exclusion = Timestamp (Some ''CET'') 1706778000000000000,
              end_exclusion = Timestamp (Some ''CET'') 1706778000000000000\<rparr>]"
  by (simp add: overlap_spec_def get_invalid_times_cases in_int64_def in_range_def row_mask_def clipped_def
      end_recovered_def cell_def ts_ge_def ts_gt_def py_max_def py_min_def)

text \<open>
  C1, amended: for every \<open>start_ts\<close>, \<open>end_ts\<close>, hive and recovery time, whenever
  \<open>get_invalid_times\<close> returns, it returns one interval for each row, in table order, whose
  \<open>hive_nb\<close> matches and that satisfies (1) \<open>start_ts <= start_opening < end_ts\<close>, or
  (2) \<open>start_ts < end_opening + recovery <= end_ts\<close>, or (3) \<open>start_opening <= start_ts\<close>
  and \<open>end_opening + recovery >= end_ts\<close>; no other row contributes. It returns when
  \<open>start_ts\<close> and \<open>end_ts\<close> are timezone-aware and the recovery time, and the end of every
  opening of the hive plus the recovery time, are in the 64-bit range of nanoseconds.
\<close>

theorem get_invalid_times_contributing:
  "(get_invalid_times openings_df start_ts end_ts hive recovery_minutes = Inr invalid_times
    \<longrightarrow> invalid_times =
          map (\<lambda>row. \<lparr>start_exclusion = py_max (cell (start_opening row)) start_ts,
                          end_exclusion =
                            py_min (ts_plus (cell (end_opening row))
                                      (recovery_minutes * 60000000000)) end_ts\<rparr>)
            (filter (\<lambda>row. hive_nb row = hive
                     \<and> (ts_le start_ts (cell (start_opening row))
                          \<and> ts_lt (cell (start_opening row)) end_ts
                        \<or> ts_lt start_ts
                             (ts_plus (cell (end_opening row)) (recovery_minutes * 60000000000))
                          \<and> ts_le (ts_plus (cell (end_opening row))
                                     (recovery_minutes * 60000000000)) end_ts
                        \<or> ts_le (cell (start_opening row)) start_ts
                          \<and> ts_le end_ts
                               (ts_plus (cell (end_opening row))
                                  (recovery_minutes * 60000000000))))
               openings_df))
   \<and> (tzinfo start_ts \<noteq> None \<and> tzinfo end_ts \<noteq> None
      \<and> in_int64 (recovery_minutes * 60000000000)
      \<and> (\<forall>row \<in> set openings_df. hive_nb row = hive \<longrightarrow> in_range recovery_minutes row)
      \<longrightarrow> (\<exists>invalid_times.
             get_invalid_times openings_df start_ts end_ts hive recovery_minutes
               = Inr invalid_times))"
proof -
  have p: "(\<lambda>row. hive_nb row = hive
              \<and> row_mask start_ts end_ts row (end_recovered recovery_minutes row)) =
        (\<lambda>row. hive_nb row = hive
                     \<and> (ts_le start_ts (cell (start_opening row))
                          \<and> ts_lt (cell (start_opening row)) end_ts
                        \<or> ts_lt start_ts
                             (ts_plus (cell (end_opening row)) (recovery_minutes * 60000000000))
                          \<and> ts_le (ts_plus (cell (end_opening row))
                                     (recovery_minutes * 60000000000)) end_ts
                        \<or> ts_le (cell (start_opening row)) start_ts
                          \<and> ts_le end_ts
                               (ts_plus (cell (end_opening row))
                                  (recovery_minutes * 60000000000))))"
    by (auto simp: row_mask_def end_recovered_def ts_ge_def ts_gt_def fun_eq_iff)
  have c: "clipped start_ts end_ts recovery_minutes = (\<lambda>row. \<lparr>start_exclusion = py_max (cell (start_opening row)) start_ts,
                          end_exclusion =
                            py_min (ts_plus (cell (end_opening row))
                                      (recovery_minutes * 60000000000)) end_ts\<rparr>)"
    by (simp add: clipped_def end_recovered_def fun_eq_iff)
  show ?thesis
    unfolding get_invalid_times_Inr_iff p c by simp
qed

text \<open>
  The amended statement at the input of the counterexample, with a row of hive 2 added:
  the row of hive 1 contributes by the second condition, the other one does not.
\<close>

theorem get_invalid_times_contributing_witness:
  "tzinfo (Timestamp (Some ''CET'') 1706774400000000000) \<noteq> None
   \<and> tzinfo (Timestamp (Some ''CET'') 1706778000000000000) \<noteq> None
   \<and> in_int64 (0 * 60000000000)
   \<and> list_all (in_range 0)
        [\<lparr>start_opening = Some 1706778000000000000, end_opening = Some 1706778000000000000,
          hive_nb = 1, comment = None\<rparr>,
         \<lparr>start_opening = Some 1706778000000000000, end_opening = Some 1706778000000000000,
          hive_nb = 2, comment = None\<rparr>]
   \<and> get_invalid_times
        [\<lparr>start_opening = Some 1706778000000000000, end_opening = Some 1706778000000000000,
          hive_nb = 1, comment = None\<rparr>,
         \<lparr>start_opening = Some 1706778000000000000, end_opening = Some 1706778000000000000,
          hive_nb = 2, comment = None\<rparr>]
        (Timestamp (Some ''CET'') 1706774400000000000)
        (Timestamp (Some ''CET'') 1706778000000000000) 1 0
      = Inr [\<lparr>start_exclusion = Timestamp (Some ''CET'') 1706778000000000000,
              end_exclusion = Timestamp (Some ''CET'') 1706778000000000000\<rparr>]"
proof -
  have r: "in_int64 (0 * 60000000000)
     \<and> list_all (in_range 0)
        [\<lparr>start_opening = Some 1706778000000000000, end_opening = Some 1706778000000000000,
          hive_nb = 1, comment = None\<rparr>,
         \<lparr>start_opening = Some 1706778000000000000, end_opening = Some 1706778000000000000,
          hive_nb = 2, comment = None\<rparr>]"
    by (simp add: in_int64_def in_range_def)
  have h: "tzinfo (Timestamp (Some ''CET'') 1706774400000000000) \<noteq> None
     \<and> tzinfo (Timestamp (Some ''CET'') 1706778000000000000) \<noteq> None
     \<and> in_int64 (0 * 60000000000)
     \<and> (\<forall>row \<in> set [\<lparr>start_opening = Some 1706778000000000000,
                        end_opening = Some 1706778000000000000, hive_nb = 1, comment = None\<rparr>,
                       \<lparr>start_opening = Some 1706778000000000000,
                        end_opening = Some 1706778000000000000, hive_nb = 2, comment = None\<rparr>].
           hive_nb row = 1 \<longrightarrow> in_range 0 row)"
    by (simp add: in_int64_def in_range_def)
  from get_invalid_times_contributing[THEN conjunct2, rule_format, OF h]
  obtain ivs where ivs: "get_invalid_times
        [\<lparr>start_opening = Some 1706778000000000000, end_opening = Some 1706778000000000000,
          hive_nb = 1, comment = None\<rparr>,
         \<lparr>start_opening = Some 1706778000000000000, end_opening = Some 1706778000000000000,
          hive_nb = 2, comment = None\<rparr>]
        (Timestamp (Some ''CET'') 1706774400000000000)
        (Timestamp (Some ''CET'') 1706778000000000000) 1 0 = Inr ivs"
    by blast
  from get_invalid_times_contributing[THEN conjunct1, rule_format, OF ivs]
  have "ivs = [\<lparr>start_exclusion = Timestamp (Some ''CET'') 1706778000000000000,
              end_exclusion = Timestamp (Some ''CET'') 1706778000000000000\<rparr>]"
    by (simp add: cell_def py_max_def py_min_def ts_gt_def)
  with ivs r show ?thesis by simp
qed

section \<open>C2: the order of the start and the end of an opening\<close>

text \<open>
  C2, as the specification states it, fails: the loader compares nothing. The line
  \<open>01/02/24 11:00-10:00 h1\<close> loads, and its row has the start at 11:00 and the end at
  10:00 of 2024-02-01 (10:00 and 09:00 UTC).
\<close>

theorem end_not_before_start_counterexample:
  "build_openings_df (\<lambda>w. Some 60) [''01/02/24 11:00-10:00 h1''] =
     Inr [\<lparr>start_opening = Some 1706781600000000000, end_opening = Some 1706778000000000000,
           hive_nb = 1, comment = None\<rparr>]
   \<and> \<not> ts_ge (cell (Some 1706778000000000000)) (cell (Some 1706781600000000000))"
proof -
  have "build_openings_df (\<lambda>w. Some 60) [''01/02/24 11:00-10:00 h1''] =
     Inr [\<lparr>start_opening = Some 1706781600000000000, end_opening = Some 1706778000000000000,
           hive_nb = 1, comment = None\<rparr>]"
    by code_simp
  then show ?thesis by (simp add: ts_ge_def cell_def)
qed

text \<open>
  C2, amended: in a log that loads, if on every line that is kept the end time is
  present and not earlier than the start time, as wall-clock times, then every row has
  \<open>end_opening >= start_opening\<close>. The offsets of the zone must keep the order of the
  wall-clock times they are defined on, as those of a time zone do.
\<close>

theorem end_not_before_start_when_line_ordered:
  assumes "build_openings_df utcoffset openings = Inr openings_df"
    and "\<forall>w w' a b. w \<le> w' \<and> utcoffset w = Some a \<and> utcoffset w' = Some b \<longrightarrow> w - a \<le> w' - b"
    and "\<forall>en \<in> set (read_loop openings []). \<forall>ws.
           to_datetime (start_text en) = Inr (Some ws) \<longrightarrow>
           (\<exists>we. to_datetime (end_text en) = Inr (Some we) \<and> ws \<le> we)"
  shows "\<forall>row \<in> set openings_df. ts_ge (cell (end_opening row)) (cell (start_opening row))"
proof
  fix row assume "row \<in> set openings_df"
  from build_row_origin[OF assms(1) this]
  obtain en sn enn where en: "en \<in> set (read_loop openings [])"
    and sn: "to_datetime (start_text en) = Inr sn" and enn: "to_datetime (end_text en) = Inr enn"
    and s: "tz_localize utcoffset sn = Inr (start_opening row)"
    and e: "tz_localize utcoffset enn = Inr (end_opening row)"
    by blast
  obtain ws where ws: "sn = Some ws"
    using start_text_Some[of en] sn to_datetime_Some by metis
  obtain we where we: "enn = Some we" and le: "ws \<le> we"
    using assms(3) en sn enn ws by fastforce
  obtain a where a: "utcoffset ws = Some a"
    and so: "start_opening row = Some ((ws - a) * 60000000000)"
    using s ws by (auto simp: tz_localize_def split: option.splits)
  obtain b where b: "utcoffset we = Some b"
    and eo: "end_opening row = Some ((we - b) * 60000000000)"
    using e we by (auto simp: tz_localize_def split: option.splits)
  have "ws - a \<le> we - b" using assms(2) le a b by blast
  then show "ts_ge (cell (end_opening row)) (cell (start_opening row))"
    by (simp add: so eo cell_def ts_ge_def)
qed

text \<open>The amended statement on the line of the specification's example.\<close>

theorem end_not_before_start_when_line_ordered_witness:
  "build_openings_df (\<lambda>w. Some 60) [''01/02/24 10:00-11:00 h12 inspection''] =
     Inr [\<lparr>start_opening = Some 1706778000000000000, end_opening = Some 1706781600000000000,
           hive_nb = 1, comment = Some ''inspection''\<rparr>,
          \<lparr>start_opening = Some 1706778000000000000, end_opening = Some 1706781600000000000,
           hive_nb = 2, comment = Some ''inspection''\<rparr>]
   \<and> list_all (\<lambda>row. ts_ge (cell (end_opening row)) (cell (start_opening row)))
       [\<lparr>start_opening = Some 1706778000000000000, end_opening = Some 1706781600000000000,
           hive_nb = 1, comment = Some ''inspection''\<rparr>,
          \<lparr>start_opening = Some 1706778000000000000, end_opening = Some 1706781600000000000,
           hive_nb = 2, comment = Some ''inspection''\<rparr>]"
proof -
  have h1: "build_openings_df (\<lambda>w. Some 60) [''01/02/24 10:00-11:00 h12 inspection''] =
     Inr [\<lparr>start_opening = Some 1706778000000000000, end_opening = Some 1706781600000000000,
           hive_nb = 1, comment = Some ''inspection''\<rparr>,
          \<lparr>start_opening = Some 1706778000000000000, end_opening = Some 1706781600000000000,
           hive_nb = 2, comment = Some ''inspection''\<rparr>]"
    by code_simp
  have h2: "\<forall>w w' a b. w \<le> w' \<and> (\<lambda>w. Some 60) w = Some a \<and> (\<lambda>w. Some (60::int)) w' = Some b
              \<longrightarrow> w - a \<le> w' - (b::int)"
    by auto
  have h3: "\<forall>en \<in> set (read_loop [''01/02/24 10:00-11:00 h12 inspection''] []). \<forall>ws.
           to_datetime (start_text en) = Inr (Some ws) \<longrightarrow>
           (\<exists>we. to_datetime (end_text en) = Inr (Some we) \<and> ws \<le> we)"
    unfolding inspection_read
    by (simp add: inspection_start inspection_end days_from_civil_def)
  from end_not_before_start_when_line_ordered[OF h1 h2 h3] h1
  show ?thesis by (simp add: list_all_iff)
qed

section \<open>C3: failure of the queries\<close>

text \<open>
  C3 says that each query fails exactly when a supplied timestamp is naive, and that
  \<open>filter_timestamps\<close> returns normally on every timezone-aware input, the empty list of
  timestamps included. On the empty list no assertion fails, the sorted list is empty,
  and \<open>min\<close> raises \<open>ValueError\<close>: the function fails although no supplied timestamp is
  naive.
\<close>

theorem filter_timestamps_empty_list:
  "filter_timestamps openings_df [] hive recovery_time = Inl ValueError"
  by (simp add: filter_timestamps_def min_list_def)

section \<open>C4: one clipped interval per contributing row\<close>

text \<open>
  C4: the result of \<open>get_invalid_times\<close> has exactly one interval for each row that passes
  the two filters, in table order: its start is \<open>max(start_opening, start_ts)\<close> and its
  end is \<open>min(end_opening + recovery, end_ts)\<close>, which on instants are the greater and the
  smaller of the two. Nothing is merged: the number of intervals that contain a
  timestamp is the number of contributing rows whose clipped interval contains it.
\<close>

theorem get_invalid_times_one_interval_per_row:
  assumes "get_invalid_times openings_df start_ts end_ts hive recovery_time = Inr invalid_times"
  shows "invalid_times =
           map (\<lambda>row. \<lparr>start_exclusion = py_max (cell (start_opening row)) start_ts,
                       end_exclusion = py_min (ts_plus (cell (end_opening row))
                                          (recovery_time * 60000000000)) end_ts\<rparr>)
             (filter (\<lambda>row. hive_nb row = hive
                        \<and> row_mask start_ts end_ts row
                            (ts_plus (cell (end_opening row)) (recovery_time * 60000000000)))
                openings_df)
         \<and> length invalid_times =
             length (filter (\<lambda>row. hive_nb row = hive
                        \<and> row_mask start_ts end_ts row
                            (ts_plus (cell (end_opening row)) (recovery_time * 60000000000)))
                       openings_df)
         \<and> (\<forall>t. length (filter (\<lambda>iv. ts_le (start_exclusion iv) t \<and> ts_le t (end_exclusion iv))
                          invalid_times)
                = length (filter (\<lambda>row. hive_nb row = hive
                        \<and> row_mask start_ts end_ts row
                            (ts_plus (cell (end_opening row)) (recovery_time * 60000000000))
                        \<and> ts_le (py_max (cell (start_opening row)) start_ts) t
                        \<and> ts_le t (py_min (ts_plus (cell (end_opening row))
                                     (recovery_time * 60000000000)) end_ts)) openings_df))
         \<and> (\<forall>row a b. start_opening row = Some a \<and> end_opening row = Some b \<longrightarrow>
                ns (py_max (cell (start_opening row)) start_ts) = max a (ns start_ts)
                \<and> ns (py_min (ts_plus (cell (end_opening row))
                            (recovery_time * 60000000000)) end_ts)
                    = min (b + recovery_time * 60000000000) (ns end_ts))"
proof -
  have aw: "tzinfo start_ts \<noteq> None" "tzinfo end_ts \<noteq> None"
    using assms unfolding get_invalid_times_Inr_iff by simp_all
  have eq: "invalid_times = map (clipped start_ts end_ts recovery_time)
             (filter (\<lambda>row. hive_nb row = hive
                        \<and> row_mask start_ts end_ts row (end_recovered recovery_time row))
                openings_df)"
    using assms unfolding get_invalid_times_Inr_iff by simp
  obtain zs s where s: "start_ts = Timestamp (Some zs) s" using aw(1) aware_cases by blast
  obtain ze e where e: "end_ts = Timestamp (Some ze) e" using aw(2) aware_cases by blast
  have clip: "ns (py_max (cell (Some a)) start_ts) = max a (ns start_ts)
              \<and> ns (py_min (ts_plus (cell (Some b)) (recovery_time * 60000000000)) end_ts)
                  = min (b + recovery_time * 60000000000) (ns end_ts)" for a b
    by (auto simp: s e cell_def py_max_def py_min_def ts_gt_def)
  have cnt: "length (filter (\<lambda>iv. ts_le (start_exclusion iv) t \<and> ts_le t (end_exclusion iv))
                          invalid_times)
                = length (filter (\<lambda>row. hive_nb row = hive
                        \<and> row_mask start_ts end_ts row
                            (ts_plus (cell (end_opening row)) (recovery_time * 60000000000))
                        \<and> ts_le (py_max (cell (start_opening row)) start_ts) t
                        \<and> ts_le t (py_min (ts_plus (cell (end_opening row))
                                     (recovery_time * 60000000000)) end_ts)) openings_df)" for t
    unfolding eq
    by (simp add: clipped_def end_recovered_def filter_map comp_def conj_ac cong: conj_cong)
  have m: "invalid_times =
           map (\<lambda>row. \<lparr>start_exclusion = py_max (cell (start_opening row)) start_ts,
                       end_exclusion = py_min (ts_plus (cell (end_opening row))
                                          (recovery_time * 60000000000)) end_ts\<rparr>)
             (filter (\<lambda>row. hive_nb row = hive
                        \<and> row_mask start_ts end_ts row
                            (ts_plus (cell (end_opening row)) (recovery_time * 60000000000)))
                openings_df)"
    unfolding eq by (simp add: clipped_def end_recovered_def)
  have len: "length invalid_times =
             length (filter (\<lambda>row. hive_nb row = hive
                        \<and> row_mask start_ts end_ts row
                            (ts_plus (cell (end_opening row)) (recovery_time * 60000000000)))
                       openings_df)"
    unfolding eq by (simp add: end_recovered_def)
  show ?thesis
    using m len cnt clip by (intro conjI allI impI) (blast, blast, blast, fastforce+)
qed

text \<open>
  Two openings of hive 1, 10:00 to 11:00 and 10:30 to 11:30, and the window from 10:00
  to 12:13:20 with the default recovery time: two intervals, the second one clipped at
  the end of the window, and the timestamp 10:45 is in both.
\<close>

theorem get_invalid_times_one_interval_per_row_witness:
  "get_invalid_times
     [\<lparr>start_opening = Some 1706778000000000000, end_opening = Some 1706781600000000000,
       hive_nb = 1, comment = None\<rparr>,
      \<lparr>start_opening = Some 1706779800000000000, end_opening = Some 1706783400000000000,
       hive_nb = 1, comment = None\<rparr>]
     (Timestamp (Some ''CET'') 1706778000000000000)
     (Timestamp (Some ''CET'') 1706786000000000000) 1 60
   = Inr [\<lparr>start_exclusion = Timestamp (Some ''CET'') 1706778000000000000,
           end_exclusion = Timestamp (Some ''CET'') 1706785200000000000\<rparr>,
          \<lparr>start_exclusion = Timestamp (Some ''CET'') 1706779800000000000,
           end_exclusion = Timestamp (Some ''CET'') 1706786000000000000\<rparr>]
   \<and> length (filter (\<lambda>iv. ts_le (start_exclusion iv) (Timestamp (Some ''CET'') 1706780700000000000)
                        \<and> ts_le (Timestamp (Some ''CET'') 1706780700000000000) (end_exclusion iv))
        [\<lparr>start_exclusion = Timestamp (Some ''CET'') 1706778000000000000,
           end_exclusion = Timestamp (Some ''CET'') 1706785200000000000\<rparr>,
          \<lparr>start_exclusion = Timestamp (Some ''CET'') 1706779800000000000,
           end_exclusion = Timestamp (Some ''CET'') 1706786000000000000\<rparr>]) = 2"
proof -
  have h: "get_invalid_times
     [\<lparr>start_opening = Some 1706778000000000000, end_opening = Some 1706781600000000000,
       hive_nb = 1, comment = None\<rparr>,
      \<lparr>start_opening = Some 1706779800000000000, end_opening = Some 1706783400000000000,
       hive_nb = 1, comment = None\<rparr>]
     (Timestamp (Some ''CET'') 1706778000000000000)
     (Timestamp (Some ''CET'') 1706786000000000000) 1 60
   = Inr [\<lparr>start_exclusion = Timestamp (Some ''CET'') 1706778000000000000,
           end_exclusion = Timestamp (Some ''CET'') 1706785200000000000\<rparr>,
          \<lparr>start_exclusion = Timestamp (Some ''CET'') 1706779800000000000,
           end_exclusion = Timestamp (Some ''CET'') 1706786000000000000\<rparr>]"
    by (simp add: get_invalid_times_cases in_int64_def in_range_def row_mask_def clipped_def
      end_recovered_def cell_def ts_ge_def ts_gt_def py_max_def py_min_def)
  from get_invalid_times_one_interval_per_row[OF h] h
  show ?thesis by simp
qed

section \<open>C5: which timestamps filter_timestamps keeps\<close>

text \<open>
  C5: when \<open>filter_timestamps\<close> returns, the invalid intervals are those that
  \<open>get_invalid_times\<close> gives for the span from the least to the greatest instant of the
  input, and a timestamp is kept exactly when it is in the input and in none of these
  intervals, an interval containing \<open>t\<close> when \<open>start <= t <= end\<close>. In particular a
  timestamp at the instant of the start or of the end of an interval (one with
  \<open>start <= end\<close>) is not kept.
\<close>

theorem filter_timestamps_closed_membership:
  assumes "filter_timestamps openings_df timestamps hive recovery_time = Inr valid_timestamps"
  shows "\<exists>start_ts end_ts invalid_times.
           min_list (sort_key ns timestamps) = Inr start_ts
           \<and> max_list (sort_key ns timestamps) = Inr end_ts
           \<and> ns start_ts = Min (ns ` set timestamps)
           \<and> ns end_ts = Max (ns ` set timestamps)
           \<and> get_invalid_times openings_df start_ts end_ts hive recovery_time = Inr invalid_times
           \<and> (\<forall>t. t \<in> set valid_timestamps \<longleftrightarrow>
                  t \<in> set timestamps
                  \<and> \<not> (\<exists>iv \<in> set invalid_times.
                         ts_le (start_exclusion iv) t \<and> ts_le t (end_exclusion iv)))
           \<and> (\<forall>iv \<in> set invalid_times. \<forall>t \<in> set timestamps.
                  ts_le (start_exclusion iv) (end_exclusion iv)
                  \<and> (ns t = ns (start_exclusion iv) \<or> ns t = ns (end_exclusion iv))
                  \<longrightarrow> t \<notin> set valid_timestamps)"
proof -
  obtain s e ivs where aw: "\<forall>t \<in> set timestamps. tzinfo t \<noteq> None"
    and s: "min_list (sort_key ns timestamps) = Inr s"
    and e: "max_list (sort_key ns timestamps) = Inr e"
    and g: "get_invalid_times openings_df s e hive recovery_time = Inr ivs"
    and v: "valid_timestamps = filter (is_valid ivs) (sort_key ns timestamps)"
    using filter_timestamps_Inr[OF assms] by blast
  obtain x xs where srt: "sort_key ns timestamps = x # xs"
    using s by (cases "sort_key ns timestamps") (auto simp: min_list_def)
  have aw': "\<forall>t \<in> set (x # xs). tzinfo t \<noteq> None"
    using aw srt by (metis set_sort)
  have set_eq: "set (x # xs) = set timestamps" using srt by (metis set_sort)
  have ns_s: "ns s = Min (ns ` set timestamps)"
    using foldl_py_min_ns[OF aw'] s srt by (simp add: min_list_def flip: set_eq)
  have ns_e: "ns e = Max (ns ` set timestamps)"
    using foldl_py_max_ns[OF aw'] e srt by (simp add: max_list_def flip: set_eq)
  have mem: "t \<in> set valid_timestamps \<longleftrightarrow>
               t \<in> set timestamps
               \<and> \<not> (\<exists>iv \<in> set ivs. ts_le (start_exclusion iv) t \<and> ts_le t (end_exclusion iv))" for t
    by (auto simp: v is_valid_iff list_ex_iff)
  have bnd: "t \<notin> set valid_timestamps"
    if iv: "iv \<in> set ivs" and t_in: "t \<in> set timestamps"
      and wf: "ts_le (start_exclusion iv) (end_exclusion iv)"
      and eq: "ns t = ns (start_exclusion iv) \<or> ns t = ns (end_exclusion iv)" for iv t
  proof -
    obtain z a where t: "t = Timestamp (Some z) a" using aw t_in aware_cases by blast
    have "ts_le (start_exclusion iv) t \<and> ts_le t (end_exclusion iv)"
      using wf eq t by (cases "start_exclusion iv"; cases "end_exclusion iv") auto
    then show ?thesis using mem iv by blast
  qed
  show ?thesis using s e g ns_s ns_e mem bnd by blast
qed

text \<open>
  The example evaluated above: of the timestamps 12:00, 09:30 and 12:30, the one at
  12:00 is the end of the interval from 10:00 to 12:00 and is not kept.
\<close>

theorem filter_timestamps_closed_membership_witness:
  "filter_timestamps
     [\<lparr>start_opening = Some 1706778000000000000, end_opening = Some 1706781600000000000,
       hive_nb = 1, comment = None\<rparr>]
     [Timestamp (Some ''CET'') 1706785200000000000,
      Timestamp (Some ''UTC'') 1706776200000000000,
      Timestamp (Some ''CET'') 1706787000000000000] 1 60
   = Inr [Timestamp (Some ''UTC'') 1706776200000000000,
          Timestamp (Some ''CET'') 1706787000000000000]
   \<and> get_invalid_times
       [\<lparr>start_opening = Some 1706778000000000000, end_opening = Some 1706781600000000000,
         hive_nb = 1, comment = None\<rparr>]
       (Timestamp (Some ''UTC'') 1706776200000000000)
       (Timestamp (Some ''CET'') 1706787000000000000) 1 60
     = Inr [\<lparr>start_exclusion = Timestamp (Some ''CET'') 1706778000000000000,
             end_exclusion = Timestamp (Some ''CET'') 1706785200000000000\<rparr>]
   \<and> Timestamp (Some ''CET'') 1706785200000000000
       \<notin> set [Timestamp (Some ''UTC'') 1706776200000000000,
                Timestamp (Some ''CET'') 1706787000000000000]"
  using filter_timestamps_closed_membership[OF example_filtered] example_filtered
    example_intervals
  by simp

section \<open>C6: one row per digit of the hive token\<close>



section \<open>C7: lines that give no rows\<close>

text \<open>
  C7, as the specification states it, fails. The line below, with two spaces after the
  date, is not empty, does not start with \<open>#\<close> and has two whitespace-delimited fields.
  The source cuts it at every single space, into the three fields \<open>01/02/24\<close>, the
  empty string and \<open>10:00-11:00\<close>: the line is kept, and the load raises \<open>ValueError\<close>
  when it parses the date and the empty time.
\<close>

theorem double_space_line_counterexample:
  "whitespace_fields ''01/02/24  10:00-11:00'' = [''01/02/24'', ''10:00-11:00'']
   \<and> strip ''01/02/24  10:00-11:00'' \<noteq> []
   \<and> \<not> startswith ''01/02/24  10:00-11:00'' CHR ''#''
   \<and> parse_line ''01/02/24  10:00-11:00''
       = Some \<lparr>date = ''01/02/24'', time = [], hives = ''10:00-11:00'', entry_comment = None\<rparr>
   \<and> build_openings_df (\<lambda>w. Some 60) [''01/02/24  10:00-11:00''] = Inl ValueError"
proof -
  have "whitespace_fields ''01/02/24  10:00-11:00'' = [''01/02/24'', ''10:00-11:00'']"
    by code_simp
  moreover have "strip ''01/02/24  10:00-11:00'' \<noteq> []"
    by code_simp
  moreover have "\<not> startswith ''01/02/24  10:00-11:00'' CHR ''#''"
    by (simp add: startswith_def)
  moreover have "parse_line ''01/02/24  10:00-11:00''
       = Some \<lparr>date = ''01/02/24'', time = [], hives = ''10:00-11:00'', entry_comment = None\<rparr>"
    by code_simp
  moreover have "build_openings_df (\<lambda>w. Some 60) [''01/02/24  10:00-11:00''] = Inl ValueError"
    by code_simp
  ultimately show ?thesis by blast
qed

text \<open>
  C7, amended: the fields of a line are the pieces into which the source cuts the
  stripped line at single spaces, with at most three cuts (consecutive spaces give
  empty fields). The loop appends nothing for a line exactly when the line is empty
  after stripping, or starts with \<open>#\<close>, or has neither 3 nor 4 such fields; and such a
  line has no effect on the load: the dictionaries read, and the result of
  \<open>build_openings_df\<close> (table or error), are those of the file without the line.
\<close>

theorem skipped_lines_give_no_rows:
  "(parse_line l = None \<longleftrightarrow>
      strip l = [] \<or> startswith l CHR ''#''
      \<or> (length (split_max CHR '' '' 3 (strip l)) \<noteq> 3
         \<and> length (split_max CHR '' '' 3 (strip l)) \<noteq> 4))
   \<and> (parse_line l = None \<longrightarrow>
        read_loop (before @ l # after) [] = read_loop (before @ after) []
        \<and> build_openings_df utcoffset (before @ l # after)
            = build_openings_df utcoffset (before @ after))"
  using parse_line_None_iff[of l] read_loop_skip[of l before after]
  by (simp add: build_openings_df_frame)

text \<open>
  A comment line, a blank line and a line of two fields give nothing, and a file of a
  good line followed by the line of two fields loads as the good line alone.
\<close>

theorem skipped_lines_give_no_rows_witness:
  "parse_line ''# 01/02/24 10:00-11:00 h1'' = None
   \<and> parse_line ''\<newline>'' = None
   \<and> parse_line ''01/02/24 10:00-11:00\<newline>'' = None
   \<and> build_openings_df (\<lambda>w. Some 60)
        ([''01/02/24 10:00-11:00 h12 inspection\<newline>''] @ ''01/02/24 10:00-11:00\<newline>'' # [])
      = build_openings_df (\<lambda>w. Some 60) ([''01/02/24 10:00-11:00 h12 inspection\<newline>''] @ [])"
proof -
  have h: "parse_line ''# 01/02/24 10:00-11:00 h1'' = None" "parse_line ''\<newline>'' = None"
    "parse_line ''01/02/24 10:00-11:00\<newline>'' = None"
    by code_simp+
  from skipped_lines_give_no_rows
         [of "''01/02/24 10:00-11:00\<newline>''" "[''01/02/24 10:00-11:00 h12 inspection\<newline>'']" "[]"
             "\<lambda>w. Some 60"] h
  show ?thesis by simp
qed

section \<open>C8: the order of the result of filter_timestamps\<close>

text \<open>
  C8: for every list of timestamps, in any order, the result of \<open>filter_timestamps\<close> is in
  ascending order of the instants and is a subsequence of the ascending (stable) sort of
  the input. The function returns this result on every list of timezone-aware
  timestamps that is not empty, when the recovery time, and the end of every opening of
  the hive plus the recovery time, are in the 64-bit range of nanoseconds.
\<close>

theorem filter_timestamps_sorted_subseq:
  "(filter_timestamps openings_df timestamps hive recovery_time = Inr valid_timestamps
    \<longrightarrow> sorted (map ns valid_timestamps)
        \<and> subseq valid_timestamps (sort_key ns timestamps))
   \<and> (timestamps \<noteq> [] \<and> (\<forall>ts \<in> set timestamps. tzinfo ts \<noteq> None)
      \<and> in_int64 (recovery_time * 60000000000)
      \<and> (\<forall>row \<in> set openings_df. hive_nb row = hive \<longrightarrow> in_range recovery_time row)
      \<longrightarrow> (\<exists>valid_timestamps.
             filter_timestamps openings_df timestamps hive recovery_time = Inr valid_timestamps))"
proof (rule conjI; rule impI)
  assume "filter_timestamps openings_df timestamps hive recovery_time = Inr valid_timestamps"
  then obtain ivs where v: "valid_timestamps = filter (is_valid ivs) (sort_key ns timestamps)"
    using filter_timestamps_Inr by blast
  have "sorted (map ns (filter (is_valid ivs) (sort_key ns timestamps)))"
    using sorted_filter[of ns "sort_key ns timestamps" "is_valid ivs"] by simp
  then show "sorted (map ns valid_timestamps)
        \<and> subseq valid_timestamps (sort_key ns timestamps)"
    unfolding v by simp
next
  assume a: "timestamps \<noteq> [] \<and> (\<forall>ts \<in> set timestamps. tzinfo ts \<noteq> None)
      \<and> in_int64 (recovery_time * 60000000000)
      \<and> (\<forall>row \<in> set openings_df. hive_nb row = hive \<longrightarrow> in_range recovery_time row)"
  then show "\<exists>valid_timestamps.
             filter_timestamps openings_df timestamps hive recovery_time = Inr valid_timestamps"
    using filter_timestamps_returns[of timestamps recovery_time openings_df hive] by blast
qed

text \<open>The same example: the input is not in order, the result is.\<close>

theorem filter_timestamps_sorted_subseq_witness:
  "[Timestamp (Some ''CET'') 1706785200000000000,
    Timestamp (Some ''UTC'') 1706776200000000000,
    Timestamp (Some ''CET'') 1706787000000000000] \<noteq> []
   \<and> list_all (\<lambda>ts. tzinfo ts \<noteq> None)
       [Timestamp (Some ''CET'') 1706785200000000000,
        Timestamp (Some ''UTC'') 1706776200000000000,
        Timestamp (Some ''CET'') 1706787000000000000]
   \<and> in_int64 (60 * 60000000000)
   \<and> list_all (in_range 60)
       [\<lparr>start_opening = Some 1706778000000000000, end_opening = Some 1706781600000000000,
         hive_nb = 1, comment = None\<rparr>]
   \<and> filter_timestamps
     [\<lparr>start_opening = Some 1706778000000000000, end_opening = Some 1706781600000000000,
       hive_nb = 1, comment = None\<rparr>]
     [Timestamp (Some ''CET'') 1706785200000000000,
      Timestamp (Some ''UTC'') 1706776200000000000,
      Timestamp (Some ''CET'') 1706787000000000000] 1 60
   = Inr [Timestamp (Some ''UTC'') 1706776200000000000,
          Timestamp (Some ''CET'') 1706787000000000000]
   \<and> sorted (map ns [Timestamp (Some ''UTC'') 1706776200000000000,
                      Timestamp (Some ''CET'') 1706787000000000000])
   \<and> subseq [Timestamp (Some ''UTC'') 1706776200000000000,
             Timestamp (Some ''CET'') 1706787000000000000]
        (sort_key ns [Timestamp (Some ''CET'') 1706785200000000000,
                      Timestamp (Some ''UTC'') 1706776200000000000,
                      Timestamp (Some ''CET'') 1706787000000000000])"
proof -
  have r: "in_int64 (60 * 60000000000)
     \<and> list_all (in_range 60)
       [\<lparr>start_opening = Some 1706778000000000000, end_opening = Some 1706781600000000000,
         hive_nb = 1, comment = None\<rparr>]"
    by (simp add: in_int64_def in_range_def)
  from filter_timestamps_sorted_subseq[THEN conjunct1, rule_format, OF example_filtered] r
    example_filtered
  show ?thesis by simp
qed

section \<open>C9: hive isolation\<close>

text \<open>
  C9: a row whose \<open>hive_nb\<close> differs from the queried hive has no effect. Adding it to the
  table at any place, or removing it, leaves the results of \<open>get_invalid_times\<close> and of
  \<open>filter_timestamps\<close> for the queried hive unchanged.
\<close>

theorem hive_isolation:
  assumes "hive_nb row \<noteq> hive"
  shows "get_invalid_times (before @ row # after) start_ts end_ts hive recovery_time
           = get_invalid_times (before @ after) start_ts end_ts hive recovery_time
         \<and> filter_timestamps (before @ row # after) timestamps hive recovery_time
           = filter_timestamps (before @ after) timestamps hive recovery_time"
proof -
  have "filter (\<lambda>row. hive_nb row = hive) (before @ row # after)
        = filter (\<lambda>row. hive_nb row = hive) (before @ after)"
    using assms by simp
  then show ?thesis
    by (metis get_invalid_times_hive_only filter_timestamps_hive_only)
qed

text \<open>
  An opening of hive 1 from 10:00 to 11:00 on 2024-02-01 and a timestamp at 10:30: for
  hive 2 the timestamp is kept, with the row in the table as without it.
\<close>

theorem hive_isolation_witness:
  "hive_nb \<lparr>start_opening = Some 1706778000000000000, end_opening = Some 1706781600000000000,
            hive_nb = 1, comment = None\<rparr> \<noteq> 2
   \<and> get_invalid_times
        ([] @ \<lparr>start_opening = Some 1706778000000000000,
               end_opening = Some 1706781600000000000, hive_nb = 1, comment = None\<rparr> # [])
        (Timestamp (Some ''CET'') 1706779800000000000)
        (Timestamp (Some ''CET'') 1706779800000000000) 2 60 = Inr []
   \<and> filter_timestamps
        ([] @ \<lparr>start_opening = Some 1706778000000000000,
               end_opening = Some 1706781600000000000, hive_nb = 1, comment = None\<rparr> # [])
        [Timestamp (Some ''CET'') 1706779800000000000] 2 60
      = Inr [Timestamp (Some ''CET'') 1706779800000000000]"
  using hive_isolation
          [of "\<lparr>start_opening = Some 1706778000000000000,
                end_opening = Some 1706781600000000000, hive_nb = 1, comment = None\<rparr>"
              2 "[]" "[]" "Timestamp (Some ''CET'') 1706779800000000000"
              "Timestamp (Some ''CET'') 1706779800000000000" 60
              "[Timestamp (Some ''CET'') 1706779800000000000]"]
  by (simp add: get_invalid_times_cases in_int64_def filter_timestamps_def min_list_def
      max_list_def)

section \<open>C10: well-formed intervals\<close>

text \<open>
  C10: for \<open>start_ts <= end_ts\<close>, a recovery time that is not negative and a table in
  which every row has \<open>end_opening >= start_opening\<close>, every interval that
  \<open>get_invalid_times\<close> returns has \<open>start <= end\<close>.
\<close>

theorem get_invalid_times_well_formed:
  assumes "ts_le start_ts end_ts" and "0 \<le> recovery_time"
    and "\<forall>row \<in> set openings_df. ts_ge (cell (end_opening row)) (cell (start_opening row))"
    and "get_invalid_times openings_df start_ts end_ts hive recovery_time = Inr invalid_times"
  shows "\<forall>iv \<in> set invalid_times. ts_le (start_exclusion iv) (end_exclusion iv)"
  using assms unfolding get_invalid_times_Inr_iff
  by (auto intro!: mask_ordered)

text \<open>
  An opening of hive 1 from 10:00 to 11:00 and the window 10:30 to 13:00 with the
  default recovery time: one interval, from 10:30 to 12:00.
\<close>

theorem get_invalid_times_well_formed_witness:
  "ts_le (Timestamp (Some ''CET'') 1706779800000000000)
        (Timestamp (Some ''CET'') 1706788800000000000)
   \<and> (0::int) \<le> 60
   \<and> list_all (\<lambda>row. ts_ge (cell (end_opening row)) (cell (start_opening row)))
        [\<lparr>start_opening = Some 1706778000000000000, end_opening = Some 1706781600000000000,
          hive_nb = 1, comment = None\<rparr>]
   \<and> get_invalid_times
           [\<lparr>start_opening = Some 1706778000000000000, end_opening = Some 1706781600000000000,
             hive_nb = 1, comment = None\<rparr>]
           (Timestamp (Some ''CET'') 1706779800000000000)
           (Timestamp (Some ''CET'') 1706788800000000000) 1 60
       = Inr [\<lparr>start_exclusion = Timestamp (Some ''CET'') 1706779800000000000,
               end_exclusion = Timestamp (Some ''CET'') 1706785200000000000\<rparr>]
   \<and> list_all (\<lambda>iv. ts_le (start_exclusion iv) (end_exclusion iv))
       [\<lparr>start_exclusion = Timestamp (Some ''CET'') 1706779800000000000,
         end_exclusion = Timestamp (Some ''CET'') 1706785200000000000\<rparr>]"
proof -
  have h1: "ts_le (Timestamp (Some ''CET'') 1706779800000000000)
              (Timestamp (Some ''CET'') 1706788800000000000)"
    by simp
  have h2: "(0::int) \<le> 60" by simp
  have h3: "\<forall>row \<in> set [\<lparr>start_opening = Some 1706778000000000000,
                          end_opening = Some 1706781600000000000, hive_nb = 1,
                          comment = None\<rparr>].
              ts_ge (cell (end_opening row)) (cell (start_opening row))"
    by (simp add: cell_def ts_ge_def)
  have h4: "get_invalid_times
           [\<lparr>start_opening = Some 1706778000000000000, end_opening = Some 1706781600000000000,
             hive_nb = 1, comment = None\<rparr>]
           (Timestamp (Some ''CET'') 1706779800000000000)
           (Timestamp (Some ''CET'') 1706788800000000000) 1 60
       = Inr [\<lparr>start_exclusion = Timestamp (Some ''CET'') 1706779800000000000,
               end_exclusion = Timestamp (Some ''CET'') 1706785200000000000\<rparr>]"
    by (simp add: get_invalid_times_cases in_int64_def in_range_def row_mask_def clipped_def
      end_recovered_def cell_def ts_ge_def ts_gt_def py_max_def py_min_def)
  from get_invalid_times_well_formed[OF h1 h2 h3 h4] h1 h3 h4
  show ?thesis by (simp add: list_all_iff)
qed

end
